theory Spec2Isabelle
  imports Complex_Main
begin

section \<open>Data model\<close>

text \<open>
  The dashboard component keeps a registry of device records, places one map marker per
  accepted record and draws a chart in the marker's popup. The model covers the
  device-list stream of \<open>ngOnInit\<close>, \<open>onAddMarker\<close>, the handlers \<open>onShowChart\<close>
  installs and \<open>onLoadSensorData\<close>; the visual configuration of map and chart, the
  request header and the subtitle text are left out.

  Times are epoch milliseconds and are modelled as integers (every value the program
  computes from the clock stays far below \<open>2 ^ 53\<close>, where the arithmetic of JavaScript
  numbers is exact); \<open>Math.floor\<close> of a quotient is \<open>div\<close>. Measured values,
  latitudes and longitudes are only passed on and are reals. Markers and chart
  instances are identified by their creation number.

  Device records are objects: the registry and the closures of the stream hold
  references to them, and \<open>onAddMarker\<close> writes into the object it is given. The
  model keeps the objects in a store, indexed by reference.

  A field that may hold \<open>undefined\<close> or the result of arithmetic on \<open>undefined\<close> is a
  \<open>jsnum\<close>.
\<close>

datatype jsnum = Undefined | NaN | Num int

fun truthy :: "jsnum \<Rightarrow> bool" where
  "truthy (Num n) = (n \<noteq> 0)"
| "truthy Undefined = False"
| "truthy NaN = False"

fun js_minus :: "jsnum \<Rightarrow> int \<Rightarrow> jsnum" where
  "js_minus (Num n) k = Num (n - k)"
| "js_minus Undefined k = NaN"
| "js_minus NaN k = NaN"

text \<open>Interface \<open>Device\<close>, with the paging window fields the chart handlers add to it.\<close>

record Device =
  lat :: real
  long :: real
  device :: string
  timestamp :: int
  marker :: "nat option"
  chart :: "nat option"
  basetime :: jsnum
  endtime :: jsnum

text \<open>One element of the \<open>results\<close> array of the sensor-data endpoint.\<close>

record SensorReading =
  r_timestamp :: int
  temperature :: real
  humidity :: real
  pm10 :: real
  pm25 :: real

text \<open>\<open>L.LatLngBounds\<close>: the two corners of the visible rectangle.\<close>

record LatLngBounds =
  northEast :: "real \<times> real"
  southWest :: "real \<times> real"

text \<open>
  A query parameter value is a template string; the model keeps what the template is
  filled with.
\<close>

datatype pval = Text string | Number jsnum | LatLng real real

type_synonym HttpParams = "(string \<times> pval) list"

datatype request = Get string HttpParams

text \<open>\<open>HttpParams.set\<close>: replaces the value of a present key, appends an absent one.\<close>

fun set_param :: "string \<Rightarrow> pval \<Rightarrow> HttpParams \<Rightarrow> HttpParams" where
  "set_param k v [] = [(k, v)]"
| "set_param k v ((k', v') # ps) =
     (if k = k' then (k, v) # ps else (k', v') # set_param k v ps)"

text \<open>
  The component, with the store of the record objects: \<open>objects\<close> gives the content of
  each reference, and the references below \<open>objects_created\<close> are those of the objects
  received so far. \<open>devices\<close> holds the own properties of the registry object, each a
  reference to a record. Then the markers currently added to the map, the numbers of
  markers and charts created so far, the HTTP requests issued so far and, for the
  device-list stream, the request \<open>switchMap\<close> is currently subscribed to (its index in
  \<open>requests\<close>).
\<close>

record AppComponent =
  objects :: "nat \<Rightarrow> Device"
  objects_created :: nat
  devices :: "string \<rightharpoonup> nat"
  on_map :: "nat set"
  markers_created :: nat
  charts_created :: nat
  requests :: "request list"
  active :: "nat option"

section \<open>Cache-busting token\<close>

text \<open>\<open>Math.floor(new Date().getTime() / (5 * 60 * 1000)) * 5 * 60 * 1000\<close>\<close>

definition cache_token :: "int \<Rightarrow> int" where
  "cache_token now = now div (5 * 60 * 1000) * 5 * 60 * 1000"

text \<open>The parameters of the device-list request (the \<open>map\<close> over \<open>bounds\<close>).\<close>

definition device_params :: "LatLngBounds \<Rightarrow> int \<Rightarrow> HttpParams" where
  "device_params bound now =
     set_param ''t'' (Number (Num (cache_token now)))
       (set_param ''sw'' (LatLng (fst (southWest bound)) (snd (southWest bound)))
         (set_param ''ne'' (LatLng (fst (northEast bound)) (snd (northEast bound))) []))"

section \<open>Sensor-data request\<close>

text \<open>
  \<open>onLoadSensorData\<close>, the request half: \<open>device\<close>, \<open>start\<close>, \<open>count\<close> and \<open>t\<close> are
  always set, \<open>end\<close> only when \<open>target.endtime\<close> is truthy.
\<close>

definition air_params :: "Device \<Rightarrow> int \<Rightarrow> HttpParams" where
  "air_params target now =
     (let param = set_param ''t'' (Number (Num (cache_token now)))
                    (set_param ''count'' (Text ''500'')
                      (set_param ''start'' (Number (basetime target))
                        (set_param ''device'' (Text (device target)) [])))
      in if truthy (endtime target)
         then set_param ''end'' (Number (endtime target)) param
         else param)"

definition onLoadSensorData :: "int \<Rightarrow> Device \<Rightarrow> AppComponent \<Rightarrow> AppComponent" where
  "onLoadSensorData now target st =
     st\<lparr>requests := requests st @ [Get ''/air'' (air_params target now)]\<rparr>"

section \<open>Chart handlers\<close>

text \<open>
  The handlers mutate the record they are bound to (\<open>event.target\<close>); the model passes
  the content of that record in and returns it updated.

  \<open>onShowChart\<close> is the \<open>popupopen\<close> handler of a marker: it calls \<open>Highcharts.chart\<close>,
  which builds a new chart instance in the popup's container, and stores the instance in
  \<open>event.target.chart\<close>.
\<close>

definition onShowChart :: "Device \<Rightarrow> AppComponent \<Rightarrow> Device \<times> AppComponent" where
  "onShowChart target st =
     (target\<lparr>chart := Some (charts_created st)\<rparr>,
      st\<lparr>charts_created := Suc (charts_created st)\<rparr>)"

text \<open>
  The chart's \<open>load\<close> callback, run 10 ms after the event: \<open>now\<close> is the clock read for
  the base time, \<open>now'\<close> the one read for the request's token.
\<close>

definition chart_load :: "int \<Rightarrow> int \<Rightarrow> Device \<Rightarrow> AppComponent \<Rightarrow> Device \<times> AppComponent" where
  "chart_load now now' target st =
     (let t1 = target\<lparr>basetime := Num ((now - 150 * 60 * 1000) div (60 * 60 * 1000) * 60 * 60 * 1000)\<rparr>;
          t2 = t1\<lparr>endtime := Undefined\<rparr>
      in (t2, onLoadSensorData now' t2 st))"

text \<open>The click handler of the chart's "previous" button.\<close>

definition step_back :: "int \<Rightarrow> Device \<Rightarrow> AppComponent \<Rightarrow> Device \<times> AppComponent" where
  "step_back now target st =
     (let d1 = target\<lparr>endtime := basetime target\<rparr>;
          d2 = d1\<lparr>basetime := js_minus (basetime d1) (3 * 60 * 60 * 1000)\<rparr>
      in (d2, onLoadSensorData now d2 st))"

text \<open>Repeated activations of the button, one per clock reading in the list.\<close>

definition step_back_all :: "int list \<Rightarrow> Device \<times> AppComponent \<Rightarrow> Device \<times> AppComponent" where
  "step_back_all nows p = fold (\<lambda>now (target, st). step_back now target st) nows p"

section \<open>Device registry and merge policy\<close>

text \<open>
  The registry is the plain object \<open>{}\<close>, so reading a property that is not its own
  goes on to \<open>Object.prototype\<close>. These are the names found there; the value of each is
  a function or, for \<open>__proto__\<close>, the prototype object: truthy, and without a
  \<open>timestamp\<close>.
\<close>

definition object_prototype :: "string list" where
  "object_prototype =
     [''constructor'', ''__defineGetter__'', ''__defineSetter__'', ''hasOwnProperty'',
      ''__lookupGetter__'', ''__lookupSetter__'', ''isPrototypeOf'',
      ''propertyIsEnumerable'', ''toString'', ''valueOf'', ''__proto__'',
      ''toLocaleString'']"

text \<open>\<open>this.devices[name]\<close>: an own property, an inherited one, or \<open>undefined\<close>.\<close>

datatype property = Absent | Inherited | Own nat

definition registry_get :: "(string \<rightharpoonup> nat) \<Rightarrow> string \<Rightarrow> property" where
  "registry_get reg name =
     (case reg name of
        Some r \<Rightarrow> Own r
      | None \<Rightarrow> if name \<in> set object_prototype then Inherited else Absent)"

text \<open>
  The side-effecting \<open>filter\<close> predicate of the device-list stream, applied to the
  reference \<open>item\<close>. The result is the predicate's value (whether the record goes on to
  \<open>onAddMarker\<close>) and the component after its assignments. \<open>marker.remove()\<close> takes the
  marker off the map. For an inherited property the first test fails (the value is
  truthy) and so does the second (\<open>item.timestamp > undefined\<close> is false): the
  predicate returns false.
\<close>

definition registry_merge :: "nat \<Rightarrow> AppComponent \<Rightarrow> bool \<times> AppComponent" where
  "registry_merge item st =
     (case registry_get (devices st) (device (objects st item)) of
        Absent \<Rightarrow> (True, st\<lparr>devices := (devices st)(device (objects st item) \<mapsto> item)\<rparr>)
      | Own cur \<Rightarrow>
          if timestamp (objects st item) > timestamp (objects st cur) then
            (let st1 = (case marker (objects st cur) of
                          None \<Rightarrow> st
                        | Some m \<Rightarrow> st\<lparr>on_map := on_map st - {m}\<rparr>)
             in (True, st1\<lparr>devices := (devices st1)(device (objects st item) \<mapsto> item)\<rparr>))
          else (False, st)
      | Inherited \<Rightarrow> (False, st))"

text \<open>
  \<open>onAddMarker\<close>: a new marker is created, added to the map and stored in the field
  \<open>marker\<close> of the object \<open>item\<close>.
\<close>

definition onAddMarker :: "nat \<Rightarrow> AppComponent \<Rightarrow> AppComponent" where
  "onAddMarker item st =
     st\<lparr>objects := (objects st)(item := (objects st item)\<lparr>marker := Some (markers_created st)\<rparr>),
        on_map := insert (markers_created st) (on_map st),
        markers_created := Suc (markers_created st)\<rparr>"

text \<open>One record through \<open>filter\<close> and \<open>tap\<close>.\<close>

definition process_item :: "nat \<Rightarrow> AppComponent \<Rightarrow> AppComponent" where
  "process_item item st =
     (case registry_merge item st of
        (False, st1) \<Rightarrow> st1
      | (True, st1) \<Rightarrow> onAddMarker item st1)"

text \<open>
  A record of a response is a new object; it gets its reference when \<open>flatMap\<close> emits
  it.
\<close>

definition new_object :: "Device \<Rightarrow> AppComponent \<Rightarrow> nat \<times> AppComponent" where
  "new_object item st =
     (objects_created st,
      st\<lparr>objects := (objects st)(objects_created st := item),
         objects_created := Suc (objects_created st)\<rparr>)"

fun process_items :: "Device list \<Rightarrow> AppComponent \<Rightarrow> AppComponent" where
  "process_items [] st = st"
| "process_items (x # xs) st =
     (case new_object x st of (item, st1) \<Rightarrow> process_items xs (process_item item st1))"

text \<open>The record the registry holds for an identifier, if it holds one of its own.\<close>

definition registry_record :: "AppComponent \<Rightarrow> string \<Rightarrow> Device option" where
  "registry_record st name = map_option (objects st) (devices st name)"

section \<open>Device-list stream\<close>

text \<open>
  What the HTTP call delivers: a body, an \<open>HttpErrorResponse\<close> carrying a body in its
  \<open>error\<close> field, or any other error. A body is \<open>null\<close> or an object whose \<open>status\<close>
  and \<open>results\<close> may be absent.
\<close>

datatype body = Null | Obj (status: "string option") (results: "Device list option")

datatype http_result = Next body | HttpErrorResponse body | OtherError

datatype js_error = TypeError

text \<open>The \<open>catchError\<close> of the inner stream.\<close>

fun catch_error :: "http_result \<Rightarrow> body" where
  "catch_error (Next b) = b"
| "catch_error (HttpErrorResponse e) = e"
| "catch_error OtherError = Obj (Some ''error'') None"

text \<open>
  \<open>filter(resp => resp.status !== 'error')\<close> and \<open>flatMap(resp => resp.results)\<close>: the
  records the response sends on to the registry stage. Reading \<open>status\<close> of \<open>null\<close>
  and flattening an absent \<open>results\<close> raise a \<open>TypeError\<close>.
\<close>

definition response_items :: "http_result \<Rightarrow> js_error + Device list" where
  "response_items r =
     (case catch_error r of
        Null \<Rightarrow> Inl TypeError
      | Obj s rs \<Rightarrow>
          if s = Some ''error'' then Inr []
          else (case rs of
                  None \<Rightarrow> Inl TypeError
                | Some items \<Rightarrow> Inr items))"

text \<open>The stream from the response on: the records pass the registry stage in order.\<close>

definition device_response :: "http_result \<Rightarrow> AppComponent \<Rightarrow> js_error + AppComponent" where
  "device_response r st =
     (case response_items r of
        Inl err \<Rightarrow> Inl err
      | Inr items \<Rightarrow> Inr (process_items items st))"

text \<open>
  Events of the device-list stream: \<open>bounds.next\<close> (with the clock reading used for the
  token) and the delivery of the result of the request with a given index.
  \<open>filter(bound => !!bound)\<close> drops the initial \<open>undefined\<close>; \<open>switchMap\<close> unsubscribes
  from the request it was subscribed to and subscribes to the new one, so only the
  result of the latest request is passed on.
\<close>

datatype event = Bounds "LatLngBounds option" int | Result nat http_result

fun step :: "event \<Rightarrow> AppComponent \<Rightarrow> js_error + AppComponent" where
  "step (Bounds None now) st = Inr st"
| "step (Bounds (Some bound) now) st =
     Inr (st\<lparr>requests := requests st @ [Get ''/device'' (device_params bound now)],
            active := Some (length (requests st))\<rparr>)"
| "step (Result n r) st =
     (if active st = Some n then device_response r (st\<lparr>active := None\<rparr>) else Inr st)"

fun run :: "event list \<Rightarrow> AppComponent \<Rightarrow> js_error + AppComponent" where
  "run [] st = Inr st"
| "run (e # es) st = (case step e st of Inl err \<Rightarrow> Inl err | Inr st' \<Rightarrow> run es st')"

section \<open>Sensor-data response\<close>

text \<open>A chart instance: the data of its four series and the "no data" labels shown.\<close>

record Chart =
  series :: "(int \<times> real) list list"
  labels :: nat

record tuple =
  key :: nat
  val :: real
  time :: int

text \<open>The second \<open>flatMap\<close>: four tuples per reading, the time shifted by nine hours.\<close>

definition fan_out :: "SensorReading \<Rightarrow> tuple list" where
  "fan_out item =
     [\<lparr>key = 0, val = temperature item, time = r_timestamp item + 9 * 60 * 60 * 1000\<rparr>,
      \<lparr>key = 1, val = humidity item, time = r_timestamp item + 9 * 60 * 60 * 1000\<rparr>,
      \<lparr>key = 2, val = pm10 item, time = r_timestamp item + 9 * 60 * 60 * 1000\<rparr>,
      \<lparr>key = 3, val = pm25 item, time = r_timestamp item + 9 * 60 * 60 * 1000\<rparr>]"

text \<open>
  \<open>groupBy\<close>: a group is opened when its key is first seen and receives the elements
  with that key in the order of the stream.
\<close>

fun add_to_group :: "'k \<Rightarrow> 'a \<Rightarrow> ('k \<times> 'a list) list \<Rightarrow> ('k \<times> 'a list) list" where
  "add_to_group k x [] = [(k, [x])]"
| "add_to_group k x ((k', xs) # gs) =
     (if k = k' then (k', xs @ [x]) # gs else (k', xs) # add_to_group k x gs)"

definition groupBy :: "('a \<Rightarrow> 'k) \<Rightarrow> 'a list \<Rightarrow> ('k \<times> 'a list) list" where
  "groupBy f xs = fold (\<lambda>x gs. add_to_group (f x) x gs) xs []"

text \<open>\<open>chart.series[k].setData(data)\<close>\<close>

definition setData :: "nat \<Rightarrow> (int \<times> real) list \<Rightarrow> Chart \<Rightarrow> Chart" where
  "setData k data ch = ch\<lparr>series := (series ch)[k := data]\<rparr>"

text \<open>
  \<open>map\<close>, \<open>toArray\<close> and \<open>tap\<close> on one group: the group's tuples become (time, value)
  pairs, collected in order and set as the data of the series with the group's key.
\<close>

definition set_group :: "nat \<times> tuple list \<Rightarrow> Chart \<Rightarrow> Chart" where
  "set_group g ch = setData (fst g) (map (\<lambda>item. (time item, val item)) (snd g)) ch"

text \<open>
  \<open>onLoadSensorData\<close>, the response half. The call delivers a body with its \<open>results\<close>
  (possibly absent) or fails; every failure ends in \<open>catchError\<close>, which shows the label.
\<close>

datatype air_result = AirNext "SensorReading list option" | AirError

definition air_response :: "air_result \<Rightarrow> Chart \<Rightarrow> Chart" where
  "air_response r ch =
     (case r of
        AirNext (Some rs) \<Rightarrow> fold set_group (groupBy key (concat (map fan_out rs))) ch
      | AirNext None \<Rightarrow> ch\<lparr>labels := Suc (labels ch)\<rparr>
      | AirError \<Rightarrow> ch\<lparr>labels := Suc (labels ch)\<rparr>)"

text \<open>A chart as \<open>Highcharts.chart\<close> builds it in \<open>onShowChart\<close>: four series without data.\<close>

definition new_chart :: Chart where
  "new_chart = \<lparr>series = [[], [], [], []], labels = 0\<rparr>"

text \<open>Repeated openings of the popup of one record.\<close>

definition open_popups :: "nat \<Rightarrow> Device \<times> AppComponent \<Rightarrow> Device \<times> AppComponent" where
  "open_popups n p = ((\<lambda>(target, st). onShowChart target st) ^^ n) p"

section \<open>Initial state and records as received\<close>

text \<open>
  A record as the device-list endpoint sends it (\<open>device\<close>, \<open>lat\<close>, \<open>long\<close>,
  \<open>timestamp\<close>): the optional fields are absent.
\<close>

definition json_device :: "string \<Rightarrow> real \<Rightarrow> real \<Rightarrow> int \<Rightarrow> Device" where
  "json_device d la lo ts =
     \<lparr>lat = la, long = lo, device = d, timestamp = ts, marker = None, chart = None,
      basetime = Undefined, endtime = Undefined\<rparr>"

text \<open>
  The component as its constructor and field initialisers leave it. No record has been
  received; the content given to the references is a placeholder, replaced when a
  reference is handed out.
\<close>

definition initial :: AppComponent where
  "initial = \<lparr>objects = (\<lambda>r. json_device [] 0 0 0), objects_created = 0,
               devices = Map.empty, on_map = {}, markers_created = 0, charts_created = 0,
               requests = [], active = None\<rparr>"

section \<open>Auxiliary notions for the proofs\<close>

text \<open>
  The record the merge policy holds after a stored record \<open>s\<close> has met the records
  \<open>xs\<close> in order: a later record takes over only with a strictly greater timestamp.
\<close>

fun winner :: "Device \<Rightarrow> Device list \<Rightarrow> Device" where
  "winner s [] = s"
| "winner s (x # xs) = winner (if timestamp x > timestamp s then x else s) xs"

text \<open>
  Every registry entry refers to an object received earlier, and every marker such an
  object refers to has been created by \<open>onAddMarker\<close>.
\<close>

definition entries_known :: "AppComponent \<Rightarrow> bool" where
  "entries_known st \<longleftrightarrow>
     (\<forall>d r. devices st d = Some r \<longrightarrow>
        r < objects_created st \<and>
        (\<forall>m. marker (objects st r) = Some m \<longrightarrow> m < markers_created st))"

section \<open>Properties of the cache-busting token\<close>

lemma map_of_set_param: "map_of (set_param k v ps) = (map_of ps)(k \<mapsto> v)"
  by (induction ps) (auto simp: fun_upd_twist)

lemma cache_token_eq: "cache_token now = now div 300000 * 300000"
  by (simp add: cache_token_def)

lemma air_params_eq:
  "air_params target now =
     [(''device'', Text (device target)), (''start'', Number (basetime target)),
      (''count'', Text ''500''), (''t'', Number (Num (cache_token now)))] @
     (if truthy (endtime target) then [(''end'', Number (endtime target))] else [])"
  by (simp add: air_params_def Let_def)

text \<open>
  C2. The token is \<open>floor(now / 300000) * 300000\<close>; it is the value of the parameter
  \<open>t\<close> of the device-list request and of the sensor-data request; and two clock
  readings give the same token exactly when they fall into the same 5-minute bucket.
\<close>

theorem cache_token_bucket:
  "cache_token now = now div 300000 * 300000 \<and>
   map_of (device_params bound now) ''t'' = Some (Number (Num (cache_token now))) \<and>
   map_of (air_params target now) ''t'' = Some (Number (Num (cache_token now))) \<and>
   (cache_token t1 = cache_token t2 \<longleftrightarrow> t1 div 300000 = t2 div 300000)"
proof -
  have dev: "map_of (device_params bound now) ''t'' = Some (Number (Num (cache_token now)))"
    by (simp add: device_params_def map_of_set_param)
  have air: "map_of (air_params target now) ''t'' = Some (Number (Num (cache_token now)))"
    by (simp add: air_params_eq)
  have same: "cache_token t1 = cache_token t2 \<longleftrightarrow> t1 div 300000 = t2 div 300000"
    by (simp add: cache_token_eq)
  from dev air same show ?thesis by (simp add: cache_token_eq)
qed

text \<open>
  The example of the specification: requests at 1,000,000 ms and 1,050,000 ms carry the
  same token, 900,000.
\<close>

lemma cache_token_example: "cache_token 1000000 = 900000 \<and> cache_token 1050000 = 900000"
  by (simp add: cache_token_def)

section \<open>Properties of the paging window\<close>

lemma step_back_Num:
  "basetime target = Num b \<Longrightarrow>
   step_back now target st =
     (target\<lparr>endtime := Num b, basetime := Num (b - 10800000)\<rparr>,
      onLoadSensorData now (target\<lparr>endtime := Num b, basetime := Num (b - 10800000)\<rparr>) st)"
  by (simp add: step_back_def Let_def)

lemma step_back_all_window:
  "basetime target = Num b \<Longrightarrow>
   basetime (fst (step_back_all nows (target, st))) = Num (b - 10800000 * int (length nows)) \<and>
   (nows = [] \<or>
      endtime (fst (step_back_all nows (target, st))) =
        Num (b - 10800000 * int (length nows) + 10800000)) \<and>
   length (requests (snd (step_back_all nows (target, st)))) = length (requests st) + length nows"
proof (induction nows arbitrary: target st b)
  case Nil
  then show ?case by (simp add: step_back_all_def)
next
  case (Cons now nows)
  let ?t = "target\<lparr>endtime := Num b, basetime := Num (b - 10800000)\<rparr>"
  let ?s = "onLoadSensorData now ?t st"
  have unfold: "step_back_all (now # nows) (target, st) = step_back_all nows (?t, ?s)"
    using Cons.prems by (simp add: step_back_all_def step_back_Num)
  have base: "basetime ?t = Num (b - 10800000)" by simp
  note ih = Cons.IH [OF base, of ?s]
  show ?case
  proof (cases "nows = []")
    case True
    then show ?thesis using unfold by (simp add: step_back_all_def onLoadSensorData_def)
  next
    case False
    then show ?thesis using unfold ih by (simp add: onLoadSensorData_def algebra_simps)
  qed
qed

text \<open>
  C3. With base time \<open>b\<close>, one activation of the button sets the end to \<open>b\<close> and the
  base to \<open>b - 10800000\<close> and issues the sensor-data request for the new window; after
  any number of activations the base has moved back by 10,800,000 ms per activation, the
  end is the base before the last activation, and one request was issued per activation.
\<close>

theorem step_back_three_hours:
  assumes "basetime target = Num b"
  shows "endtime (fst (step_back now target st)) = Num b \<and>
         basetime (fst (step_back now target st)) = Num (b - 10800000) \<and>
         requests (snd (step_back now target st)) =
           requests st @
             [Get ''/air''
                ([(''device'', Text (device target)), (''start'', Number (Num (b - 10800000))),
                  (''count'', Text ''500''), (''t'', Number (Num (cache_token now)))] @
                 (if b = 0 then [] else [(''end'', Number (Num b))]))] \<and>
         basetime (fst (step_back_all nows (target, st))) =
           Num (b - 10800000 * int (length nows)) \<and>
         (nows = [] \<or>
            endtime (fst (step_back_all nows (target, st))) =
              Num (b - 10800000 * int (length nows) + 10800000)) \<and>
         length (requests (snd (step_back_all nows (target, st)))) =
           length (requests st) + length nows"
proof -
  have one: "endtime (fst (step_back now target st)) = Num b \<and>
         basetime (fst (step_back now target st)) = Num (b - 10800000) \<and>
         requests (snd (step_back now target st)) =
           requests st @
             [Get ''/air''
                ([(''device'', Text (device target)), (''start'', Number (Num (b - 10800000))),
                  (''count'', Text ''500''), (''t'', Number (Num (cache_token now)))] @
                 (if b = 0 then [] else [(''end'', Number (Num b))]))]"
    by (simp add: step_back_Num [OF assms] onLoadSensorData_def air_params_eq)
  from one step_back_all_window [OF assms, of nows st] show ?thesis by simp
qed

theorem step_back_three_hours_witness:
  "basetime ((json_device ''A'' 35 128 100)\<lparr>basetime := Num 7200000\<rparr>) = Num 7200000 \<and>
   endtime (fst (step_back 20000000 ((json_device ''A'' 35 128 100)\<lparr>basetime := Num 7200000\<rparr>) initial))
     = Num 7200000 \<and>
   basetime (fst (step_back 20000000 ((json_device ''A'' 35 128 100)\<lparr>basetime := Num 7200000\<rparr>) initial))
     = Num (- 3600000) \<and>
   basetime (fst (step_back_all [20000000, 20000001, 20000002]
       ((json_device ''A'' 35 128 100)\<lparr>basetime := Num 7200000\<rparr>, initial))) = Num (- 25200000) \<and>
   endtime (fst (step_back_all [20000000, 20000001, 20000002]
       ((json_device ''A'' 35 128 100)\<lparr>basetime := Num 7200000\<rparr>, initial))) = Num (- 14400000)"
  using step_back_three_hours [of "(json_device ''A'' 35 128 100)\<lparr>basetime := Num 7200000\<rparr>"
      7200000 20000000 initial "[20000000, 20000001, 20000002]"]
  by (simp add: json_device_def)

lemma chart_load_eq:
  "chart_load now now' target st =
     (target\<lparr>basetime := Num ((now - 9000000) div 3600000 * 3600000), endtime := Undefined\<rparr>,
      st\<lparr>requests := requests st @
          [Get ''/air''
             [(''device'', Text (device target)),
              (''start'', Number (Num ((now - 9000000) div 3600000 * 3600000))),
              (''count'', Text ''500''), (''t'', Number (Num (cache_token now')))]]\<rparr>)"
  by (simp add: chart_load_def Let_def onLoadSensorData_def air_params_eq)

lemma hour_floor_bounds:
  "now - 12600000 < (now - 9000000) div 3600000 * 3600000 \<and>
   (now - 9000000) div 3600000 * 3600000 \<le> now - (9000000::int)"
proof -
  have "(now - 9000000) div 3600000 * 3600000 = (now - 9000000) - (now - 9000000) mod 3600000"
    by (simp add: minus_mod_eq_div_mult [symmetric])
  moreover have "0 \<le> (now - 9000000) mod 3600000" by simp
  moreover have "(now - 9000000) mod 3600000 < 3600000" by simp
  ultimately show ?thesis by linarith
qed

text \<open>
  C4, as the code has it. On chart load the base time becomes the hour boundary
  \<open>floor((now - 9000000) / 3600000) * 3600000\<close>, which lies at least 150 and less than
  210 minutes before the clock reading; the end is \<open>undefined\<close>; and the request carries \<open>device\<close>, \<open>start\<close> (the base time), \<open>count\<close>
  and \<open>t\<close>, and no \<open>end\<close>.
\<close>

theorem chart_load_window:
  "basetime (fst (chart_load now now' target st)) =
     Num ((now - 9000000) div 3600000 * 3600000) \<and>
   endtime (fst (chart_load now now' target st)) = Undefined \<and>
   now - 12600000 < (now - 9000000) div 3600000 * 3600000 \<and>
   (now - 9000000) div 3600000 * 3600000 \<le> now - 9000000 \<and>
   requests (snd (chart_load now now' target st)) =
     requests st @
       [Get ''/air''
          [(''device'', Text (device target)),
           (''start'', Number (Num ((now - 9000000) div 3600000 * 3600000))),
           (''count'', Text ''500''), (''t'', Number (Num (cache_token now')))]]"
  using hour_floor_bounds [of now] by (simp add: chart_load_eq)

text \<open>
  The claim as stated fails: at clock reading 12,599,999 the window has no end, no
  \<open>end\<close> parameter is sent, and the start (0) lies 12,599,999 ms before the clock
  reading, whereas at clock reading 9,000,000 the same start lies 9,000,000 ms before it,
  so the distance is not fixed.
\<close>

theorem chart_load_window_counterexample:
  "endtime (fst (chart_load 12599999 12599999 (json_device ''A'' 35 128 100) initial)) = Undefined \<and>
   requests (snd (chart_load 12599999 12599999 (json_device ''A'' 35 128 100) initial)) =
     [Get ''/air'' [(''device'', Text ''A''), (''start'', Number (Num 0)),
                    (''count'', Text ''500''), (''t'', Number (Num 12300000))]] \<and>
   basetime (fst (chart_load 12599999 12599999 (json_device ''A'' 35 128 100) initial)) = Num 0 \<and>
   basetime (fst (chart_load 9000000 9000000 (json_device ''A'' 35 128 100) initial)) = Num 0"
  by (simp add: chart_load_eq json_device_def initial_def cache_token_def)

section \<open>Properties of chart creation\<close>

lemma open_popups_Suc:
  "open_popups (Suc n) (target, st) =
     onShowChart (fst (open_popups n (target, st))) (snd (open_popups n (target, st)))"
  by (simp add: open_popups_def split: prod.splits)

lemma open_popups_count:
  "charts_created (snd (open_popups n (target, st))) = charts_created st + n \<and>
   chart (fst (open_popups (Suc n) (target, st))) = Some (charts_created st + n)"
proof (induction n)
  case 0
  show ?case by (simp add: open_popups_def onShowChart_def)
next
  case (Suc n)
  have a: "charts_created (snd (open_popups (Suc n) (target, st))) = charts_created st + Suc n"
    using Suc.IH by (simp add: open_popups_Suc onShowChart_def)
  have "chart (fst (open_popups (Suc (Suc n)) (target, st))) =
        Some (charts_created (snd (open_popups (Suc n) (target, st))))"
    by (subst open_popups_Suc) (simp add: onShowChart_def)
  with a show ?case by simp
qed

text \<open>
  C5, as the code has it. Every opening of the popup builds a new chart instance and
  stores it in the record, in place of the one stored before: after \<open>n\<close> openings
  \<open>n\<close> instances have been created, and the record refers to the one created last.
\<close>

theorem chart_created_per_open:
  "chart (fst (onShowChart target st)) = Some (charts_created st) \<and>
   charts_created (snd (onShowChart target st)) = Suc (charts_created st) \<and>
   charts_created (snd (open_popups n (target, st))) = charts_created st + n \<and>
   chart (fst (open_popups (Suc n) (target, st))) = Some (charts_created st + n)"
  using open_popups_count [of n target st] by (simp add: onShowChart_def)

text \<open>
  The claim as stated fails: two openings of the popup of one record create two
  instances, and the record refers to a different instance after the second.
\<close>

theorem chart_reuse_counterexample:
  "chart (fst (open_popups 1 (json_device ''A'' 35 128 100, initial))) = Some 0 \<and>
   chart (fst (open_popups 2 (json_device ''A'' 35 128 100, initial))) = Some 1 \<and>
   charts_created (snd (open_popups 2 (json_device ''A'' 35 128 100, initial))) = 2"
  by (simp add: open_popups_def onShowChart_def initial_def numeral_2_eq_2)

section \<open>Properties of the registry merge\<close>

lemma registry_get_Own: "registry_get reg name = Own r \<longleftrightarrow> reg name = Some r"
  by (simp add: registry_get_def split: option.splits)

lemma registry_get_None:
  "reg name = None \<Longrightarrow>
   registry_get reg name = (if name \<in> set object_prototype then Inherited else Absent)"
  by (simp add: registry_get_def)

text \<open>The four ways through the filter, followed by \<open>onAddMarker\<close> where it runs.\<close>

lemma process_item_absent:
  "registry_get (devices st) (device (objects st item)) = Absent \<Longrightarrow>
   process_item item st =
     st\<lparr>devices := (devices st)(device (objects st item) \<mapsto> item),
        objects := (objects st)(item := (objects st item)\<lparr>marker := Some (markers_created st)\<rparr>),
        on_map := insert (markers_created st) (on_map st),
        markers_created := Suc (markers_created st)\<rparr>"
  by (simp add: process_item_def registry_merge_def onAddMarker_def)

lemma process_item_newer:
  "registry_get (devices st) (device (objects st item)) = Own cur \<Longrightarrow>
   timestamp (objects st cur) < timestamp (objects st item) \<Longrightarrow>
   process_item item st =
     st\<lparr>on_map := insert (markers_created st)
                    (case marker (objects st cur) of
                       None \<Rightarrow> on_map st
                     | Some m \<Rightarrow> on_map st - {m}),
        devices := (devices st)(device (objects st item) \<mapsto> item),
        objects := (objects st)(item := (objects st item)\<lparr>marker := Some (markers_created st)\<rparr>),
        markers_created := Suc (markers_created st)\<rparr>"
  by (simp add: process_item_def registry_merge_def onAddMarker_def Let_def split: option.splits)

lemma process_item_stale:
  "registry_get (devices st) (device (objects st item)) = Own cur \<Longrightarrow>
   timestamp (objects st item) \<le> timestamp (objects st cur) \<Longrightarrow>
   registry_merge item st = (False, st) \<and> process_item item st = st"
  by (simp add: process_item_def registry_merge_def)

lemma process_item_inherited:
  "registry_get (devices st) (device (objects st item)) = Inherited \<Longrightarrow>
   registry_merge item st = (False, st) \<and> process_item item st = st"
  by (simp add: process_item_def registry_merge_def)

lemma process_item_cases:
  obtains (absent) "registry_get (devices st) (device (objects st item)) = Absent"
  | (inherited) "registry_get (devices st) (device (objects st item)) = Inherited"
  | (newer) cur where "registry_get (devices st) (device (objects st item)) = Own cur"
      "timestamp (objects st cur) < timestamp (objects st item)"
  | (stale) cur where "registry_get (devices st) (device (objects st item)) = Own cur"
      "timestamp (objects st item) \<le> timestamp (objects st cur)"
  by (cases "registry_get (devices st) (device (objects st item))")
     (auto simp: not_less [symmetric])

lemma new_object_eq:
  "new_object x st =
     (objects_created st,
      st\<lparr>objects := (objects st)(objects_created st := x),
         objects_created := Suc (objects_created st)\<rparr>)"
  by (simp add: new_object_def)

text \<open>Records of one identifier leave the entries of the other identifiers alone.\<close>

lemma process_item_other:
  "d' \<noteq> device (objects st item) \<Longrightarrow> devices (process_item item st) d' = devices st d'"
  by (cases st item rule: process_item_cases)
     (simp_all add: process_item_absent process_item_newer process_item_stale
        process_item_inherited)

lemma process_items_other:
  "\<forall>x \<in> set xs. device x = d \<Longrightarrow> d' \<noteq> d \<Longrightarrow>
   devices (process_items xs st) d' = devices st d'"
proof (induction xs arbitrary: st)
  case Nil
  show ?case by simp
next
  case (Cons x xs)
  let ?st1 = "snd (new_object x st)"
  let ?n = "objects_created st"
  have "devices (process_items (x # xs) st) d' = devices (process_item ?n ?st1) d'"
    using Cons.IH [of "process_item ?n ?st1"] Cons.prems by (simp add: new_object_eq)
  also have "\<dots> = devices ?st1 d'"
    using Cons.prems by (intro process_item_other) (simp add: new_object_eq)
  finally show ?case by (simp add: new_object_eq)
qed

text \<open>
  Markers are numbered as they are created and references as they are handed out, so a
  stored marker is never the next marker and a stored reference never the next
  reference.
\<close>

lemma process_item_entries_known:
  assumes "entries_known st" and "item < objects_created st"
  shows "entries_known (process_item item st)"
proof (cases st item rule: process_item_cases)
  case absent
  show ?thesis
    using assms unfolding process_item_absent [OF absent] entries_known_def
    by (auto simp: less_Suc_eq split: if_splits)
next
  case inherited
  then show ?thesis using assms process_item_inherited by simp
next
  case (newer cur)
  show ?thesis
    using assms unfolding process_item_newer [OF newer] entries_known_def
    by (auto simp: less_Suc_eq split: if_splits)
next
  case (stale cur)
  then show ?thesis using assms process_item_stale by simp
qed

lemma new_object_entries_known:
  "entries_known st \<Longrightarrow> entries_known (snd (new_object x st))"
  unfolding entries_known_def new_object_eq
  by (auto simp: less_Suc_eq)

lemma process_items_entries_known:
  "entries_known st \<Longrightarrow> entries_known (process_items xs st)"
proof (induction xs arbitrary: st)
  case Nil
  then show ?case by simp
next
  case (Cons x xs)
  have "entries_known (process_item (objects_created st) (snd (new_object x st)))"
    by (rule process_item_entries_known [OF new_object_entries_known [OF Cons.prems]])
       (simp add: new_object_eq)
  from Cons.IH [OF this] show ?case by (simp add: new_object_eq)
qed

lemma entries_known_initial: "entries_known initial"
  by (simp add: entries_known_def initial_def)

text \<open>
  For an identifier found in \<open>Object.prototype\<close> no record is ever stored and no marker
  drawn.
\<close>

lemma process_items_inherited:
  "\<forall>x \<in> set xs. device x = d \<Longrightarrow> d \<in> set object_prototype \<Longrightarrow> devices st d = None \<Longrightarrow>
   devices (process_items xs st) d = None \<and>
   on_map (process_items xs st) = on_map st \<and>
   markers_created (process_items xs st) = markers_created st"
proof (induction xs arbitrary: st)
  case Nil
  then show ?case by simp
next
  case (Cons x xs)
  let ?st1 = "snd (new_object x st)"
  let ?n = "objects_created st"
  have "registry_get (devices ?st1) (device (objects ?st1 ?n)) = Inherited"
    using Cons.prems by (simp add: new_object_eq registry_get_None)
  then have same: "process_item ?n ?st1 = ?st1" using process_item_inherited by blast
  have "devices ?st1 d = None" using Cons.prems(3) by (simp add: new_object_eq)
  from Cons.IH [OF _ Cons.prems(2) this] Cons.prems(1) show ?case
    by (simp add: new_object_eq same [unfolded new_object_eq snd_conv])
qed

text \<open>
  For any other identifier the registry entry follows \<open>winner\<close>, whatever marker the
  entry carries.
\<close>

lemma process_items_winner:
  "\<forall>x \<in> set xs. device x = d \<Longrightarrow> devices st d = Some r \<Longrightarrow> r < objects_created st \<Longrightarrow>
   objects st r = s\<lparr>marker := Some m\<rparr> \<Longrightarrow>
   \<exists>r' m'. devices (process_items xs st) d = Some r' \<and>
           r' < objects_created (process_items xs st) \<and>
           objects (process_items xs st) r' = (winner s xs)\<lparr>marker := Some m'\<rparr>"
proof (induction xs arbitrary: st s m r)
  case Nil
  then show ?case by (auto intro: exI [of _ m])
next
  case (Cons x xs)
  let ?n = "objects_created st"
  let ?st1 = "st\<lparr>objects := (objects st)(?n := x), objects_created := Suc ?n\<rparr>"
  have dx: "device x = d" and rest: "\<forall>y \<in> set xs. device y = d"
    using Cons.prems(1) by simp_all
  have rn: "r \<noteq> ?n" using Cons.prems(3) by simp
  have get: "registry_get (devices ?st1) (device (objects ?st1 ?n)) = Own r"
    using Cons.prems(2) dx by (simp add: registry_get_Own)
  have unfold: "process_items (x # xs) st = process_items xs (process_item ?n ?st1)"
    by (simp add: new_object_eq)
  show ?case
  proof (cases "timestamp s < timestamp x")
    case True
    have newer: "timestamp (objects ?st1 r) < timestamp (objects ?st1 ?n)"
      using True rn Cons.prems(4) by simp
    let ?st2 = "process_item ?n ?st1"
    have a: "devices ?st2 d = Some ?n"
      unfolding process_item_newer [OF get newer] using dx by simp
    have b: "?n < objects_created ?st2"
      unfolding process_item_newer [OF get newer] by simp
    have c: "objects ?st2 ?n = x\<lparr>marker := Some (markers_created st)\<rparr>"
      unfolding process_item_newer [OF get newer] by simp
    from Cons.IH [OF rest a b c] show ?thesis unfolding unfold using True by simp
  next
    case False
    have stale: "timestamp (objects ?st1 ?n) \<le> timestamp (objects ?st1 r)"
      using False rn Cons.prems(4) by simp
    have same: "process_item ?n ?st1 = ?st1" using process_item_stale [OF get stale] by simp
    have a: "devices ?st1 d = Some r" using Cons.prems(2) by simp
    have b: "r < objects_created ?st1" using Cons.prems(3) by simp
    have c: "objects ?st1 r = s\<lparr>marker := Some m\<rparr>" using rn Cons.prems(4) by simp
    from Cons.IH [OF rest a b c] show ?thesis unfolding unfold same using False by simp
  qed
qed

text \<open>
  \<open>winner\<close> is the first record, in arrival order, among those with the greatest
  timestamp.
\<close>

lemma winner_first_max:
  "winner s xs = hd (filter (\<lambda>x. timestamp x = Max (timestamp ` set (s # xs))) (s # xs))"
proof (induction xs arbitrary: s)
  case Nil
  show ?case by simp
next
  case (Cons x xs)
  let ?M = "Max (timestamp ` set (s # x # xs))"
  show ?case
  proof (cases "timestamp s < timestamp x")
    case True
    have le: "timestamp s \<le> Max (timestamp ` set (x # xs))"
      by (rule order_trans [OF less_imp_le [OF True]]) simp
    have "?M = max (timestamp s) (Max (timestamp ` set (x # xs)))" by simp
    also have "\<dots> = Max (timestamp ` set (x # xs))" using le by (rule max_absorb2)
    finally have M: "?M = Max (timestamp ` set (x # xs))" .
    have "timestamp s < ?M" unfolding M using True by (simp add: Max_gr_iff)
    then show ?thesis using True Cons.IH [of x] M by simp
  next
    case False
    have le: "timestamp x \<le> Max (timestamp ` set (s # xs))"
    proof (rule order_trans)
      show "timestamp x \<le> timestamp s" using False by simp
      show "timestamp s \<le> Max (timestamp ` set (s # xs))" by simp
    qed
    have "set (s # x # xs) = insert x (set (s # xs))" by auto
    then have "?M = max (timestamp x) (Max (timestamp ` set (s # xs)))"
      by (simp only: image_insert) (simp del: set_simps)
    also have "\<dots> = Max (timestamp ` set (s # xs))" using le by (rule max_absorb2)
    finally have M: "?M = Max (timestamp ` set (s # xs))" .
    show ?thesis
    proof (cases "timestamp s = ?M")
      case True
      then show ?thesis using False Cons.IH [of s] M by simp
    next
      case neq: False
      have "timestamp x \<le> timestamp s" using False by simp
      moreover have "timestamp s \<le> ?M" by simp
      ultimately have "timestamp x \<noteq> ?M" using neq by linarith
      then show ?thesis using False neq Cons.IH [of s] M by simp
    qed
  qed
qed

text \<open>
  The merge policy for the identifiers not found in \<open>Object.prototype\<close>: from a registry
  without an entry for \<open>d\<close>, the records \<open>xs\<close> of \<open>d\<close> leave as entry the first record
  among those with the greatest timestamp, with the marker \<open>onAddMarker\<close> gave it.
\<close>

lemma process_items_first_latest:
  assumes "xs \<noteq> []" and "\<forall>x \<in> set xs. device x = d" and "d \<notin> set object_prototype"
    and "devices st d = None"
  shows "\<exists>m. registry_record (process_items xs st) d =
           Some ((hd (filter (\<lambda>x. timestamp x = Max (timestamp ` set xs)) xs))\<lparr>marker := Some m\<rparr>)"
proof -
  obtain x xs' where xs: "xs = x # xs'" using assms(1) by (cases xs) auto
  have dx: "device x = d" and rest: "\<forall>y \<in> set xs'. device y = d"
    using assms(2) xs by simp_all
  let ?n = "objects_created st"
  let ?st1 = "st\<lparr>objects := (objects st)(?n := x), objects_created := Suc ?n\<rparr>"
  let ?st2 = "process_item ?n ?st1"
  have get: "registry_get (devices ?st1) (device (objects ?st1 ?n)) = Absent"
    using assms(3,4) dx by (simp add: registry_get_None)
  have a: "devices ?st2 d = Some ?n"
    unfolding process_item_absent [OF get] using dx by simp
  have b: "?n < objects_created ?st2"
    unfolding process_item_absent [OF get] by simp
  have c: "objects ?st2 ?n = x\<lparr>marker := Some (markers_created st)\<rparr>"
    unfolding process_item_absent [OF get] by simp
  from process_items_winner [OF rest a b c]
  obtain r m where "devices (process_items xs' ?st2) d = Some r"
    and "objects (process_items xs' ?st2) r = (winner x xs')\<lparr>marker := Some m\<rparr>" by blast
  then have "registry_record (process_items xs st) d =
               Some ((hd (filter (\<lambda>y. timestamp y = Max (timestamp ` set xs)) xs))\<lparr>marker := Some m\<rparr>)"
    unfolding xs winner_first_max by (simp add: registry_record_def new_object_eq)
  then show ?thesis by blast
qed

text \<open>
  The example of the specification: timestamps 100, 80, 150 arrive for device \<open>A\<close>; the
  registry then holds the record with timestamp 150.
\<close>

lemma registry_example:
  "registry_record (process_items
       [json_device ''A'' 35 128 100, json_device ''A'' 35 128 80,
        json_device ''A'' 35 128 150] initial) ''A'' =
     Some ((json_device ''A'' 35 128 150)\<lparr>marker := Some 1\<rparr>)"
proof -
  have "''A'' \<notin> set object_prototype" by (simp add: object_prototype_def)
  then show ?thesis
    by (simp add: registry_get_def registry_merge_def new_object_def process_item_def
        onAddMarker_def registry_record_def initial_def json_device_def)
qed

text \<open>
  C1 at a failing input. The records with timestamps 100, 80 and 150 arrive for the
  identifier \<open>constructor\<close> at the initial component. The lookup finds the inherited
  property, the filter rejects each record, and afterwards the registry has no entry
  for the identifier and no marker is on the map, where the claim has the registry hold
  the record with timestamp 150.
\<close>

theorem inherited_identifier_not_stored:
  "registry_get (devices initial) ''constructor'' = Inherited \<and>
   registry_merge 0 (snd (new_object (json_device ''constructor'' 35 128 100) initial)) =
     (False, snd (new_object (json_device ''constructor'' 35 128 100) initial)) \<and>
   registry_record (process_items
       [json_device ''constructor'' 35 128 100, json_device ''constructor'' 35 128 80,
        json_device ''constructor'' 35 128 150] initial) ''constructor'' = None \<and>
   on_map (process_items
       [json_device ''constructor'' 35 128 100, json_device ''constructor'' 35 128 80,
        json_device ''constructor'' 35 128 150] initial) = {}"
proof -
  let ?xs = "[json_device ''constructor'' 35 128 100, json_device ''constructor'' 35 128 80,
              json_device ''constructor'' 35 128 150]"
  let ?st1 = "snd (new_object (json_device ''constructor'' 35 128 100) initial)"
  have inh: "''constructor'' \<in> set object_prototype" by (simp add: object_prototype_def)
  have none: "devices initial ''constructor'' = None" by (simp add: initial_def)
  have a: "registry_get (devices initial) ''constructor'' = Inherited"
    using inh none by (simp add: registry_get_None)
  have "registry_get (devices ?st1) (device (objects ?st1 0)) = Inherited"
    using inh by (simp add: new_object_eq registry_get_None initial_def json_device_def)
  then have b: "registry_merge 0 ?st1 = (False, ?st1)" using process_item_inherited by blast
  have "\<forall>x \<in> set ?xs. device x = ''constructor''" by (simp add: json_device_def)
  from process_items_inherited [OF this inh none]
  have c: "devices (process_items ?xs initial) ''constructor'' = None"
    and d: "on_map (process_items ?xs initial) = on_map initial" by simp_all
  have e: "on_map initial = {}" by (simp add: initial_def)
  from a b c d e show ?thesis by (simp add: registry_record_def)
qed

text \<open>
  C9. When the lookup of an incoming record's identifier yields a stored record with a
  strictly older timestamp and with marker \<open>m\<close>, the filter takes \<open>m\<close> off the map and
  makes the incoming object the registry entry; \<open>onAddMarker\<close> gives that object a
  marker of its own. The entry's chart, base time and end time are those of the
  incoming record; the replaced object is not changed and is no longer the entry.
\<close>

theorem replacement_discards_state:
  assumes "registry_get (devices st) (device (objects st item)) = Own cur"
    and "timestamp (objects st cur) < timestamp (objects st item)"
    and "marker (objects st cur) = Some m" and "m < markers_created st"
  shows "devices (snd (registry_merge item st)) (device (objects st item)) = Some item \<and>
         on_map (snd (registry_merge item st)) = on_map st - {m} \<and>
         objects (snd (registry_merge item st)) = objects st \<and>
         devices (process_item item st) (device (objects st item)) = Some item \<and>
         item \<noteq> cur \<and>
         objects (process_item item st) item =
           (objects st item)\<lparr>marker := Some (markers_created st)\<rparr> \<and>
         objects (process_item item st) cur = objects st cur \<and>
         on_map (process_item item st) = insert (markers_created st) (on_map st - {m}) \<and>
         m \<notin> on_map (process_item item st) \<and>
         registry_record (process_item item st) (device (objects st item)) =
           Some ((objects st item)\<lparr>marker := Some (markers_created st)\<rparr>) \<and>
         chart (the (registry_record (process_item item st) (device (objects st item)))) =
           chart (objects st item) \<and>
         basetime (the (registry_record (process_item item st) (device (objects st item)))) =
           basetime (objects st item) \<and>
         endtime (the (registry_record (process_item item st) (device (objects st item)))) =
           endtime (objects st item)"
proof -
  have neq: "item \<noteq> cur" using assms(2) by auto
  have merge: "registry_merge item st =
      (True, st\<lparr>on_map := on_map st - {m},
                devices := (devices st)(device (objects st item) \<mapsto> item)\<rparr>)"
    using assms(1,2,3) by (simp add: registry_merge_def Let_def)
  have filter_part:
    "devices (snd (registry_merge item st)) (device (objects st item)) = Some item \<and>
     on_map (snd (registry_merge item st)) = on_map st - {m} \<and>
     objects (snd (registry_merge item st)) = objects st"
    unfolding merge by simp
  have whole: "process_item item st =
      st\<lparr>on_map := insert (markers_created st) (on_map st - {m}),
         devices := (devices st)(device (objects st item) \<mapsto> item),
         objects := (objects st)(item := (objects st item)\<lparr>marker := Some (markers_created st)\<rparr>),
         markers_created := Suc (markers_created st)\<rparr>"
    using assms(3) by (simp add: process_item_newer [OF assms(1,2)])
  show ?thesis
    using filter_part neq assms(4) unfolding whole by (simp add: registry_record_def)
qed

theorem replacement_discards_state_witness:
  "devices (process_item 1
      (initial\<lparr>objects := (objects initial)
                  (0 := (json_device ''A'' 35 128 100)
                          \<lparr>marker := Some 0, chart := Some 0, basetime := Num 7200000,
                           endtime := Num 18000000\<rparr>,
                   1 := json_device ''A'' 35 128 150),
               objects_created := 2, devices := [''A'' \<mapsto> 0], on_map := {0},
               markers_created := 1, charts_created := 1\<rparr>)) ''A'' = Some 1 \<and>
   registry_record (process_item 1
      (initial\<lparr>objects := (objects initial)
                  (0 := (json_device ''A'' 35 128 100)
                          \<lparr>marker := Some 0, chart := Some 0, basetime := Num 7200000,
                           endtime := Num 18000000\<rparr>,
                   1 := json_device ''A'' 35 128 150),
               objects_created := 2, devices := [''A'' \<mapsto> 0], on_map := {0},
               markers_created := 1, charts_created := 1\<rparr>)) ''A'' =
     Some ((json_device ''A'' 35 128 150)\<lparr>marker := Some 1\<rparr>) \<and>
   on_map (process_item 1
      (initial\<lparr>objects := (objects initial)
                  (0 := (json_device ''A'' 35 128 100)
                          \<lparr>marker := Some 0, chart := Some 0, basetime := Num 7200000,
                           endtime := Num 18000000\<rparr>,
                   1 := json_device ''A'' 35 128 150),
               objects_created := 2, devices := [''A'' \<mapsto> 0], on_map := {0},
               markers_created := 1, charts_created := 1\<rparr>)) = {1}"
  using replacement_discards_state
    [of "initial\<lparr>objects := (objects initial)
                  (0 := (json_device ''A'' 35 128 100)
                          \<lparr>marker := Some 0, chart := Some 0, basetime := Num 7200000,
                           endtime := Num 18000000\<rparr>,
                   1 := json_device ''A'' 35 128 150),
               objects_created := 2, devices := [''A'' \<mapsto> 0], on_map := {0},
               markers_created := 1, charts_created := 1\<rparr>" 1 0 0]
  by (simp add: json_device_def registry_get_def initial_def)

section \<open>Properties of the device-list stream\<close>

lemma response_items_error_body:
  "catch_error r = Obj (Some ''error'') rs \<Longrightarrow> response_items r = Inr []"
  by (simp add: response_items_def)






text \<open>
  A body without \<open>results\<close> and without status \<open>error\<close> (what a failed connection
  leaves in the error's \<open>error\<close> field) raises the \<open>TypeError\<close>; the registry stage is
  not reached.
\<close>

lemma response_without_results:
  "s \<noteq> Some ''error'' \<Longrightarrow>
   device_response (HttpErrorResponse (Obj s None)) st = Inl TypeError"
  by (simp add: device_response_def response_items_def)

text \<open>
  C10, as the code has it. A new bounding box issues a request and makes it the one
  the stream listens to; the result of any request issued before it is then dropped
  and leaves the component as it is, whatever timestamps it carries; the result of
  the new request passes its records to the registry stage.
\<close>

theorem superseded_response_dropped:
  assumes "n < length (requests st)" and "s \<noteq> Some ''error''"
  shows "step (Bounds (Some bound) now) st =
           Inr (st\<lparr>requests := requests st @ [Get ''/device'' (device_params bound now)],
                  active := Some (length (requests st))\<rparr>) \<and>
         step (Result n r)
           (st\<lparr>requests := requests st @ [Get ''/device'' (device_params bound now)],
               active := Some (length (requests st))\<rparr>) =
           Inr (st\<lparr>requests := requests st @ [Get ''/device'' (device_params bound now)],
                  active := Some (length (requests st))\<rparr>) \<and>
         step (Result (length (requests st)) (Next (Obj s (Some items))))
           (st\<lparr>requests := requests st @ [Get ''/device'' (device_params bound now)],
               active := Some (length (requests st))\<rparr>) =
           Inr (process_items items
                  (st\<lparr>requests := requests st @ [Get ''/device'' (device_params bound now)],
                      active := None\<rparr>))"
  using assms by (simp add: device_response_def response_items_def)

theorem superseded_response_dropped_witness:
  "step (Result 0 (Next (Obj (Some ''ok'') (Some [json_device ''A'' 35 128 150]))))
     (initial\<lparr>requests := [Get ''/device'' [], Get ''/device'' (device_params
                    \<lparr>northEast = (36, 129), southWest = (35, 128)\<rparr> 1000)],
              active := Some 1\<rparr>) =
   Inr (initial\<lparr>requests := [Get ''/device'' [], Get ''/device'' (device_params
                      \<lparr>northEast = (36, 129), southWest = (35, 128)\<rparr> 1000)],
                active := Some 1\<rparr>)"
  using superseded_response_dropped
    [of 0 "initial\<lparr>requests := [Get ''/device'' []], active := Some 0\<rparr>"
        "Some ''ok''" "\<lparr>northEast = (36, 129), southWest = (35, 128)\<rparr>" 1000
        "Next (Obj (Some ''ok'') (Some [json_device ''A'' 35 128 150]))" "[]"]
  by simp

text \<open>
  The claim as stated fails: the registry holds device \<open>A\<close> with timestamp 100; a
  request is issued and superseded by another; the result of the superseded request
  arrives with a record of \<open>A\<close> with the strictly newer timestamp 150, and the registry
  entry is still the record with timestamp 100.
\<close>

theorem stale_response_counterexample:
  "run [Bounds (Some \<lparr>northEast = (36, 129), southWest = (35, 128)\<rparr>) 0,
        Result 0 (Next (Obj (Some ''ok'') (Some [json_device ''A'' 35 128 100]))),
        Bounds (Some \<lparr>northEast = (36, 129), southWest = (35, 128)\<rparr>) 1000,
        Bounds (Some \<lparr>northEast = (37, 130), southWest = (36, 129)\<rparr>) 2000,
        Result 1 (Next (Obj (Some ''ok'') (Some [json_device ''A'' 35 128 150])))]
       initial =
     Inr \<lparr>objects = (objects initial)(0 := (json_device ''A'' 35 128 100)\<lparr>marker := Some 0\<rparr>),
          objects_created = 1, devices = [''A'' \<mapsto> 0],
          on_map = {0}, markers_created = 1, charts_created = 0,
          requests = [Get ''/device'' [(''ne'', LatLng 36 129), (''sw'', LatLng 35 128),
                                       (''t'', Number (Num 0))],
                      Get ''/device'' [(''ne'', LatLng 36 129), (''sw'', LatLng 35 128),
                                       (''t'', Number (Num 0))],
                      Get ''/device'' [(''ne'', LatLng 37 130), (''sw'', LatLng 36 129),
                                       (''t'', Number (Num 0))]],
          active = Some 2\<rparr>"
proof -
  have "''A'' \<notin> set object_prototype" by (simp add: object_prototype_def)
  then show ?thesis
    by (simp add: response_items_def device_response_def process_item_def registry_get_def
        registry_merge_def onAddMarker_def new_object_def initial_def json_device_def
        device_params_def cache_token_def)
qed

section \<open>Properties of the sensor-data series\<close>

lemma fold_fan_out:
  "fold (\<lambda>x gs. add_to_group (key x) x gs) (concat (map fan_out rs))
        [(0, a), (1, b), (2, c), (3, d)] =
   [(0, a @ map (\<lambda>r. fan_out r ! 0) rs), (1, b @ map (\<lambda>r. fan_out r ! 1) rs),
    (2, c @ map (\<lambda>r. fan_out r ! 2) rs), (3, d @ map (\<lambda>r. fan_out r ! 3) rs)]"
proof (induction rs arbitrary: a b c d)
  case Nil
  show ?case by simp
next
  case (Cons r rs)
  have one: "fold (\<lambda>x gs. add_to_group (key x) x gs) (fan_out r) [(0, a), (1, b), (2, c), (3, d)] =
        [(0, a @ [fan_out r ! 0]), (1, b @ [fan_out r ! 1]),
         (2, c @ [fan_out r ! 2]), (3, d @ [fan_out r ! 3])]"
    by (simp add: fan_out_def)
  have "fold (\<lambda>x gs. add_to_group (key x) x gs) (concat (map fan_out (r # rs)))
          [(0, a), (1, b), (2, c), (3, d)] =
        fold (\<lambda>x gs. add_to_group (key x) x gs) (concat (map fan_out rs))
          (fold (\<lambda>x gs. add_to_group (key x) x gs) (fan_out r) [(0, a), (1, b), (2, c), (3, d)])"
    by simp
  also have "\<dots> = [(0, (a @ [fan_out r ! 0]) @ map (\<lambda>r. fan_out r ! 0) rs),
                     (1, (b @ [fan_out r ! 1]) @ map (\<lambda>r. fan_out r ! 1) rs),
                     (2, (c @ [fan_out r ! 2]) @ map (\<lambda>r. fan_out r ! 2) rs),
                     (3, (d @ [fan_out r ! 3]) @ map (\<lambda>r. fan_out r ! 3) rs)]"
    unfolding one by (rule Cons.IH)
  finally show ?case by simp
qed

text \<open>A non-empty response opens the four groups in the order of the keys.\<close>

lemma groupBy_fan_out:
  "groupBy key (concat (map fan_out (r # rs))) =
   [(0, map (\<lambda>r. fan_out r ! 0) (r # rs)), (1, map (\<lambda>r. fan_out r ! 1) (r # rs)),
    (2, map (\<lambda>r. fan_out r ! 2) (r # rs)), (3, map (\<lambda>r. fan_out r ! 3) (r # rs))]"
proof -
  have first: "fold (\<lambda>x gs. add_to_group (key x) x gs) (fan_out r) [] =
      [(0, [fan_out r ! 0]), (1, [fan_out r ! 1]), (2, [fan_out r ! 2]), (3, [fan_out r ! 3])]"
    by (simp add: fan_out_def)
  have "groupBy key (concat (map fan_out (r # rs))) =
        fold (\<lambda>x gs. add_to_group (key x) x gs) (concat (map fan_out rs))
          (fold (\<lambda>x gs. add_to_group (key x) x gs) (fan_out r) [])"
    by (simp add: groupBy_def)
  also have "\<dots> = [(0, [fan_out r ! 0] @ map (\<lambda>r. fan_out r ! 0) rs),
                     (1, [fan_out r ! 1] @ map (\<lambda>r. fan_out r ! 1) rs),
                     (2, [fan_out r ! 2] @ map (\<lambda>r. fan_out r ! 2) rs),
                     (3, [fan_out r ! 3] @ map (\<lambda>r. fan_out r ! 3) rs)]"
    unfolding first by (rule fold_fan_out)
  finally show ?thesis by simp
qed

lemma series_air_response:
  assumes "rs \<noteq> []" and "length (series ch) = 4"
  shows "series (air_response (AirNext (Some rs)) ch) =
     [map (\<lambda>r. (r_timestamp r + 32400000, temperature r)) rs,
      map (\<lambda>r. (r_timestamp r + 32400000, humidity r)) rs,
      map (\<lambda>r. (r_timestamp r + 32400000, pm10 r)) rs,
      map (\<lambda>r. (r_timestamp r + 32400000, pm25 r)) rs]"
proof -
  obtain r rs' where rs: "rs = r # rs'" using assms(1) by (cases rs) auto
  obtain s0 s1 s2 s3 where ser: "series ch = [s0, s1, s2, s3]"
    using assms(2) by (auto simp: length_Suc_conv numeral_eq_Suc)
  show ?thesis
    unfolding rs air_response_def
    by (simp add: groupBy_fan_out set_group_def setData_def ser fan_out_def comp_def del: list.map)
qed

text \<open>An empty response opens no group: no series is set.\<close>

lemma air_response_empty: "air_response (AirNext (Some [])) ch = ch"
  by (simp add: air_response_def groupBy_def)

lemma sorted_shift:
  "sorted (map (\<lambda>r. r_timestamp r + (32400000::int)) rs) = sorted (map r_timestamp rs)"
  by (induction rs) auto

text \<open>
  C7, as the code has it. For a non-empty response and a chart with its four series,
  the data of the series are the (time, value) pairs of temperature, humidity, PM10 and
  PM2.5, one pair per reading, in the order of the readings in the response; the times of
  a series are non-decreasing exactly when the timestamps of the response are.
\<close>

theorem series_in_response_order:
  assumes "rs \<noteq> []" and "length (series ch) = 4"
  shows "series (air_response (AirNext (Some rs)) ch) =
           [map (\<lambda>r. (r_timestamp r + 32400000, temperature r)) rs,
            map (\<lambda>r. (r_timestamp r + 32400000, humidity r)) rs,
            map (\<lambda>r. (r_timestamp r + 32400000, pm10 r)) rs,
            map (\<lambda>r. (r_timestamp r + 32400000, pm25 r)) rs] \<and>
         (sorted (map fst (series (air_response (AirNext (Some rs)) ch) ! 0)) \<longleftrightarrow>
            sorted (map r_timestamp rs)) \<and>
         (sorted (map fst (series (air_response (AirNext (Some rs)) ch) ! 1)) \<longleftrightarrow>
            sorted (map r_timestamp rs)) \<and>
         (sorted (map fst (series (air_response (AirNext (Some rs)) ch) ! 2)) \<longleftrightarrow>
            sorted (map r_timestamp rs)) \<and>
         (sorted (map fst (series (air_response (AirNext (Some rs)) ch) ! 3)) \<longleftrightarrow>
            sorted (map r_timestamp rs))"
  unfolding series_air_response [OF assms]
  by (simp add: comp_def sorted_shift)

theorem series_in_response_order_witness:
  "series (air_response
     (AirNext (Some [\<lparr>r_timestamp = 2000, temperature = 21, humidity = 40, pm10 = 12, pm25 = 7\<rparr>,
                     \<lparr>r_timestamp = 1000, temperature = 20, humidity = 41, pm10 = 11, pm25 = 6\<rparr>]))
     new_chart) =
   [[(32402000, 21), (32401000, 20)], [(32402000, 40), (32401000, 41)],
    [(32402000, 12), (32401000, 11)], [(32402000, 7), (32401000, 6)]]"
  using series_in_response_order
    [of "[\<lparr>r_timestamp = 2000, temperature = 21, humidity = 40, pm10 = 12, pm25 = 7\<rparr>,
          \<lparr>r_timestamp = 1000, temperature = 20, humidity = 41, pm10 = 11, pm25 = 6\<rparr>]" new_chart]
  by (simp add: new_chart_def)

text \<open>
  The claim as stated fails: a response whose readings are not in chronological order
  gives a temperature series whose times decrease.
\<close>

theorem series_order_counterexample:
  "series (air_response
     (AirNext (Some [\<lparr>r_timestamp = 2000, temperature = 21, humidity = 40, pm10 = 12, pm25 = 7\<rparr>,
                     \<lparr>r_timestamp = 1000, temperature = 20, humidity = 41, pm10 = 11, pm25 = 6\<rparr>]))
     new_chart) ! 0 = [(32402000, 21), (32401000, 20)] \<and>
   \<not> sorted (map fst (series (air_response
     (AirNext (Some [\<lparr>r_timestamp = 2000, temperature = 21, humidity = 40, pm10 = 12, pm25 = 7\<rparr>,
                     \<lparr>r_timestamp = 1000, temperature = 20, humidity = 41, pm10 = 11, pm25 = 6\<rparr>]))
     new_chart) ! 0))"
  by (simp add: air_response_def groupBy_def fan_out_def set_group_def setData_def new_chart_def)

text \<open>
  C8. A response with exactly one reading, with \<open>pm25 = 35\<close> and timestamp \<open>T\<close>, sets
  the data of the PM 2.5 series (the fourth series) to the single point
  \<open>(T + 32400000, 35)\<close>.
\<close>

theorem pm25_single_point:
  assumes "length (series ch) = 4"
  shows "series (air_response
           (AirNext (Some [\<lparr>r_timestamp = T, temperature = te, humidity = h, pm10 = p, pm25 = 35\<rparr>]))
           ch) ! 3 = [(T + 32400000, 35)]"
proof -
  obtain s0 s1 s2 s3 where ser: "series ch = [s0, s1, s2, s3]"
    using assms by (auto simp: length_Suc_conv numeral_eq_Suc)
  show ?thesis
    by (simp add: air_response_def groupBy_def fan_out_def set_group_def setData_def ser)
qed

theorem pm25_single_point_witness:
  "length (series new_chart) = 4 \<and>
   series (air_response
     (AirNext (Some [\<lparr>r_timestamp = 1000, temperature = 20, humidity = 41, pm10 = 11, pm25 = 35\<rparr>]))
     new_chart) ! 3 = [(32401000, 35)]"
  using pm25_single_point [of new_chart 1000 20 41 11]
  by (simp add: new_chart_def)

end
